theory Spec2Isabelle
  imports Complex_Main
begin

section \<open>The sketchpad: data model\<close>

text \<open>
  A shallow embedding of the \<open>Sketchpad\<close> class. JavaScript numbers are modelled as
  exact reals, and the arithmetic on them as exact arithmetic; the erase pass is modelled
  a second time with every arithmetic operation followed by a rounding, which is
  \<open>round_to_double\<close> for the program as it runs. A number that the source only ever
  uses as a loop bound (\<open>numPoints\<close>) is an \<open>int\<close>. An optional field
  (\<open>width?: number\<close>) is an \<open>option\<close>: \<open>None\<close> is the absent field. Objects are
  values: the model has no sharing between two strokes of the document.
\<close>

datatype error = TypeError

datatype CanvasLineCap = Cap_butt | Cap_round | Cap_square

datatype CanvasLineJoin = Join_round | Join_bevel | Join_miter

text \<open>
  \<open>class Point\<close> and the object literals the source uses in its place. The constructor
  \<open>new Point(x, y)\<close> sets \<open>skipped\<close> to \<open>false\<close>; a literal \<open>{x, y}\<close> has no such field.
\<close>

record point =
  x :: real
  y :: real
  skipped :: "bool option"

definition Point :: "real \<Rightarrow> real \<Rightarrow> point" where
  "Point a b = \<lparr>x = a, y = b, skipped = Some False\<rparr>"

text \<open>A condition \<open>if (p.skipped)\<close> holds when the field is present and true.\<close>

definition truthy_skipped :: "point \<Rightarrow> bool" where
  "truthy_skipped p = (skipped p = Some True)"

record stroke =
  points :: "point list option"
  width :: "real option"
  color :: "string option"
  cap :: "CanvasLineCap option"
  join :: "CanvasLineJoin option"
  miterLimit :: "real option"
  isInterpolationDone :: "bool option"

text \<open>\<open>interface LineOptionsI\<close> and its extension \<open>StrokeI\<close>, the serialised stroke.\<close>

record LineOptionsI =
  sizeI :: "real option"
  colorI :: "string option"
  capI :: "CanvasLineCap option"
  joinI :: "CanvasLineJoin option"
  miterLimitI :: "real option"
  isInterpolationDoneI :: "bool option"

record StrokeI = LineOptionsI +
  pointsI :: "point list option"

record DataI =
  aspectRatioD :: "real option"
  strokesD :: "StrokeI list option"

text \<open>
  \<open>interface SketchpadOptionsI\<close>. The callback \<open>onDrawEnd\<close> is not part of the model:
  it is code of the caller.
\<close>

record SketchpadOptionsI =
  backgroundColorO :: "string option"
  readOnlyO :: "bool option"
  widthO :: "real option"
  heightO :: "real option"
  aspectRatioO :: "real option"
  lineO :: "LineOptionsI option"
  dataO :: "DataI option"

text \<open>
  The fields of the \<open>Sketchpad\<close> object. \<open>canvasWidth\<close> and \<open>canvasHeight\<close> are
  \<open>this.canvas.width\<close> and \<open>this.canvas.height\<close>; \<open>strokes\<close> is the private field
  \<open>_strokes\<close>; \<open>lineIsInterpolationDone\<close> is the private option \<open>isInterpolationDone\<close>.
\<close>

record sketchpad =
  canvasWidth :: real
  canvasHeight :: real
  sketching :: bool
  isEraserActive :: bool
  strokes :: "stroke list"
  undoneStrokes :: "stroke list"
  backgroundColor :: "string option"
  readOnly :: bool
  aspectRatio :: real
  lineWidth :: real
  lineColor :: string
  lineCap :: CanvasLineCap
  lineJoin :: CanvasLineJoin
  lineMiterLimit :: real
  lineIsInterpolationDone :: bool
  eraserSize :: real

text \<open>
  A pointer event, as the handlers read it: whether its type contains \<open>touch\<close>
  (\<open>isTouchEvent\<close>), and the position \<open>clientX - rect.left\<close>, \<open>clientY - rect.top\<close>
  of the pointer in the canvas's bounding rectangle.
\<close>

record event =
  isTouchEvent :: bool
  offsetX :: real
  offsetY :: real

section \<open>Strokes and coordinates\<close>

definition fromObj :: "StrokeI \<Rightarrow> stroke" where
  "fromObj s = \<lparr>points = pointsI s, width = sizeI s, color = colorI s, cap = capI s,
     join = joinI s, miterLimit = miterLimitI s,
     isInterpolationDone = isInterpolationDoneI s\<rparr>"

definition getPointRelativeToCanvas :: "sketchpad \<Rightarrow> point \<Rightarrow> point" where
  "getPointRelativeToCanvas s p =
     \<lparr>x = x p / canvasWidth s, y = y p / canvasHeight s, skipped = Some False\<rparr>"

definition getCursorRelativeToCanvas :: "sketchpad \<Rightarrow> event \<Rightarrow> point" where
  "getCursorRelativeToCanvas s e =
     (let p = Point (offsetX e) (offsetY e)
      in Point (x p / canvasWidth s) (y p / canvasHeight s))"

definition normalizePoint :: "sketchpad \<Rightarrow> point \<Rightarrow> point" where
  "normalizePoint s p = Point (x p * canvasWidth s) (y p * canvasHeight s)"

definition midPoint :: "point \<Rightarrow> point \<Rightarrow> point" where
  "midPoint p1 p2 = Point ((x p1 + x p2) / 2) ((y p1 + y p2) / 2)"

definition getLineWidthRelativeToCanvas :: "sketchpad \<Rightarrow> real \<Rightarrow> real" where
  "getLineWidthRelativeToCanvas s sz = sz / canvasWidth s"

text \<open>
  \<open>deepClone\<close> is \<open>JSON.parse(JSON.stringify(obj))\<close>. On the values of this model
  (finite numbers, booleans, strings, lists, records with absent fields left absent)
  the round trip returns an equal value.
\<close>

definition deepClone :: "'a \<Rightarrow> 'a" where
  "deepClone obj = obj"

section \<open>Options\<close>

text \<open>
  \<open>setOptions\<close> tests each option for truthiness: a number is taken when it is present
  and not zero, a string when it is present and not empty, an enumeration value or an
  object when it is present, a boolean when it is present and true. It never reads
  \<open>opts.line.color\<close>.
\<close>

definition truthy_str :: "string option \<Rightarrow> bool" where
  "truthy_str v = (case v of None \<Rightarrow> False | Some t \<Rightarrow> t \<noteq> [])"

definition line_opt :: "SketchpadOptionsI \<Rightarrow> (LineOptionsI \<Rightarrow> 'a option) \<Rightarrow> 'a option" where
  "line_opt opts f = (case lineO opts of None \<Rightarrow> None | Some l \<Rightarrow> f l)"

definition setOptions :: "SketchpadOptionsI \<Rightarrow> sketchpad \<Rightarrow> sketchpad" where
  "setOptions opts s0 =
     (let s1 = (if truthy_str (backgroundColorO opts)
                then s0\<lparr>backgroundColor := backgroundColorO opts\<rparr> else s0);
          s2 = (case line_opt opts sizeI of
                  None \<Rightarrow> s1
                | Some v \<Rightarrow> if v \<noteq> 0 then s1\<lparr>lineWidth := v\<rparr> else s1);
          s3 = (case line_opt opts isInterpolationDoneI of
                  None \<Rightarrow> s2
                | Some v \<Rightarrow> if v then s2\<lparr>lineIsInterpolationDone := v\<rparr> else s2);
          s4 = (case line_opt opts capI of None \<Rightarrow> s3 | Some v \<Rightarrow> s3\<lparr>lineCap := v\<rparr>);
          s5 = (case line_opt opts joinI of None \<Rightarrow> s4 | Some v \<Rightarrow> s4\<lparr>lineJoin := v\<rparr>);
          s6 = (case line_opt opts miterLimitI of
                  None \<Rightarrow> s5
                | Some v \<Rightarrow> if v \<noteq> 0 then s5\<lparr>lineMiterLimit := v\<rparr> else s5);
          s7 = (case aspectRatioO opts of
                  None \<Rightarrow> s6
                | Some v \<Rightarrow> if v \<noteq> 0 then s6\<lparr>aspectRatio := v\<rparr> else s6);
          s8 = (case dataO opts of
                  None \<Rightarrow> s7
                | Some d \<Rightarrow> s7\<lparr>strokes :=
                    (case strokesD d of None \<Rightarrow> [] | Some ss \<Rightarrow> map fromObj ss)\<rparr>)
      in s8)"

section \<open>History\<close>

text \<open>\<open>redraw\<close> only paints the canvas; it changes no field of the model and is left out.\<close>

definition undo :: "sketchpad \<Rightarrow> sketchpad" where
  "undo s =
     (if length (strokes s) = 0 then s
      else s\<lparr>undoneStrokes := undoneStrokes s @ [last (strokes s)],
             strokes := butlast (strokes s)\<rparr>)"

definition redo :: "sketchpad \<Rightarrow> sketchpad" where
  "redo s =
     (if length (undoneStrokes s) = 0 then s
      else s\<lparr>strokes := strokes s @ [last (undoneStrokes s)],
             undoneStrokes := butlast (undoneStrokes s)\<rparr>)"

definition clear :: "sketchpad \<Rightarrow> sketchpad" where
  "clear s = s\<lparr>undoneStrokes := [], strokes := []\<rparr>"

definition pushStroke :: "point list \<Rightarrow> sketchpad \<Rightarrow> sketchpad" where
  "pushStroke pts s =
     s\<lparr>strokes := strokes s @
        [fromObj \<lparr>sizeI = Some (getLineWidthRelativeToCanvas s (lineWidth s)),
                  colorI = Some (lineColor s), capI = Some (lineCap s),
                  joinI = Some (lineJoin s), miterLimitI = Some (lineMiterLimit s),
                  isInterpolationDoneI = Some (lineIsInterpolationDone s),
                  pointsI = Some pts\<rparr>]\<rparr>"

text \<open>
  \<open>pushPoint\<close> reads the last stroke. On an empty stroke list that stroke is
  \<open>undefined\<close> and reading its \<open>points\<close> throws; a stroke without \<open>points\<close> is left
  as it is.
\<close>

definition pushPoint :: "point \<Rightarrow> sketchpad \<Rightarrow> error + sketchpad" where
  "pushPoint p s =
     (if strokes s = [] then Inl TypeError
      else (let st = last (strokes s) in
        case points st of
          None \<Rightarrow> Inr s
        | Some ps \<Rightarrow> Inr (s\<lparr>strokes := butlast (strokes s) @ [st\<lparr>points := Some (ps @ [p])\<rparr>]\<rparr>)))"

definition drawLine :: "point \<Rightarrow> point \<Rightarrow> LineOptionsI \<Rightarrow> sketchpad \<Rightarrow> sketchpad" where
  "drawLine start end lineOpts s0 =
     (let s1 = setOptions \<lparr>backgroundColorO = None, readOnlyO = None, widthO = None,
                 heightO = None, aspectRatioO = None, lineO = Some lineOpts,
                 dataO = None\<rparr> s0;
          start' = getPointRelativeToCanvas s1 (Point (x start) (y start));
          end' = getPointRelativeToCanvas s1 (Point (x end) (y end))
      in pushStroke [start', end'] s1)"

section \<open>Rounding to a double\<close>

text \<open>
  The arithmetic of the program is that of IEEE 754 binary64 numbers: the result of an
  operation is the exact result rounded to the nearest number with 53 significant bits
  (at the exponent \<open>-1074\<close> at least), a tie going to the even one.
  \<open>round_half_even\<close> rounds a real to an integer in this way, and
  \<open>round_to_double\<close> a real to a double: \<open>e\<close> is the exponent of the last of the 53
  bits. Overflow to infinity and NaN are not modelled: the rounding is that of results
  below \<open>2\<^sup>1\<^sup>0\<^sup>2\<^sup>4\<close> in magnitude.
\<close>

definition round_half_even :: "real \<Rightarrow> int" where
  "round_half_even m =
     (let f = \<lfloor>m\<rfloor>;
          d = m - of_int f
      in if d < 1/2 then f else if 1/2 < d then f + 1 else if even f then f else f + 1)"



section \<open>The eraser\<close>

text \<open>
  The callback of the inner \<open>forEach\<close> of \<open>erasePoints\<close>, in exact arithmetic: a
  point within the eraser's area is marked, any other point is left as it is (a mark is
  never taken back). Which points lie within the area when the arithmetic rounds is the
  matter of \<open>erasePoint_rounded\<close> below.
\<close>

definition erasePoint :: "real \<Rightarrow> point \<Rightarrow> point \<Rightarrow> point" where
  "erasePoint areaOfEraser cursor p =
     (let dx = x p - x cursor;
          dy = y p - y cursor;
          distanceSquared = dx * dx + dy * dy
      in if distanceSquared \<le> areaOfEraser then p\<lparr>skipped := Some True\<rparr> else p)"

text \<open>
  The outer \<open>forEach\<close>: \<open>stroke.points.forEach\<close> throws on a stroke that has no
  \<open>points\<close>, which ends the handler.
\<close>

fun erasePoints_strokes :: "real \<Rightarrow> point \<Rightarrow> stroke list \<Rightarrow> error + stroke list" where
  "erasePoints_strokes areaOfEraser cursor [] = Inr []"
| "erasePoints_strokes areaOfEraser cursor (st # rest) =
     (case points st of
        None \<Rightarrow> Inl TypeError
      | Some ps \<Rightarrow>
          (case erasePoints_strokes areaOfEraser cursor rest of
             Inl er \<Rightarrow> Inl er
           | Inr rest' \<Rightarrow>
               Inr (st\<lparr>points := Some (map (erasePoint areaOfEraser cursor) ps)\<rparr> # rest')))"

definition erasePoints :: "point \<Rightarrow> sketchpad \<Rightarrow> error + sketchpad" where
  "erasePoints cursor s =
     (let eraserSize' = getLineWidthRelativeToCanvas s (eraserSize s) / 2;
          areaOfEraser = eraserSize' * eraserSize'
      in case erasePoints_strokes areaOfEraser cursor (strokes s) of
           Inl er \<Rightarrow> Inl er
         | Inr ss \<Rightarrow> Inr (s\<lparr>strokes := ss\<rparr>))"

text \<open>
  The same erase pass with the rounding \<open>rnd\<close> after each arithmetic operation, in the
  order in which the source evaluates \<open>dx * dx + dy * dy\<close> and
  \<open>this.eraserSize / this.canvas.width / 2\<close>. With the identity for \<open>rnd\<close> it is the
  pass above; with \<open>round_to_double\<close> it is the pass as the program runs it.
\<close>

definition erasePoint_rounded :: "(real \<Rightarrow> real) \<Rightarrow> real \<Rightarrow> point \<Rightarrow> point \<Rightarrow> point" where
  "erasePoint_rounded rnd areaOfEraser cursor p =
     (let dx = rnd (x p - x cursor);
          dy = rnd (y p - y cursor);
          distanceSquared = rnd (rnd (dx * dx) + rnd (dy * dy))
      in if distanceSquared \<le> areaOfEraser then p\<lparr>skipped := Some True\<rparr> else p)"

fun erasePoints_strokes_rounded ::
  "(real \<Rightarrow> real) \<Rightarrow> real \<Rightarrow> point \<Rightarrow> stroke list \<Rightarrow> error + stroke list" where
  "erasePoints_strokes_rounded rnd areaOfEraser cursor [] = Inr []"
| "erasePoints_strokes_rounded rnd areaOfEraser cursor (st # rest) =
     (case points st of
        None \<Rightarrow> Inl TypeError
      | Some ps \<Rightarrow>
          (case erasePoints_strokes_rounded rnd areaOfEraser cursor rest of
             Inl er \<Rightarrow> Inl er
           | Inr rest' \<Rightarrow>
               Inr (st\<lparr>points := Some (map (erasePoint_rounded rnd areaOfEraser cursor) ps)\<rparr>
                    # rest')))"

definition erasePoints_rounded :: "(real \<Rightarrow> real) \<Rightarrow> point \<Rightarrow> sketchpad \<Rightarrow> error + sketchpad" where
  "erasePoints_rounded rnd cursor s =
     (let eraserSize' = rnd (rnd (eraserSize s / canvasWidth s) / 2);
          areaOfEraser = rnd (eraserSize' * eraserSize')
      in case erasePoints_strokes_rounded rnd areaOfEraser cursor (strokes s) of
           Inl er \<Rightarrow> Inl er
         | Inr ss \<Rightarrow> Inr (s\<lparr>strokes := ss\<rparr>))"

text \<open>
  The inner loop of \<open>createNewStrokesAfterErasing\<close>, over the points \<open>points[j..]\<close> still
  to be read: \<open>prev\<close> is \<open>previousStrokes[i]\<close>, whose style \<open>newStroke\<close> carries,
  \<open>cur\<close> is \<open>newStroke.points\<close>, and the test \<open>j + 1 == points.length\<close> is
  \<open>rest = []\<close>.
\<close>

fun erasing_points_loop :: "stroke \<Rightarrow> point list \<Rightarrow> point list \<Rightarrow> stroke list \<Rightarrow> stroke list" where
  "erasing_points_loop prev [] cur newStrokes = newStrokes"
| "erasing_points_loop prev (p # rest) cur newStrokes =
     (if truthy_skipped p then
        (if length cur > 0
         then erasing_points_loop prev rest []
                (newStrokes @ [deepClone (prev\<lparr>points := Some cur\<rparr>)])
         else erasing_points_loop prev rest cur newStrokes)
      else
        (let cur' = cur @ [p];
             newStrokes' = (if rest = []
                then newStrokes @ [deepClone (prev\<lparr>points := Some cur'\<rparr>)]
                else newStrokes)
         in erasing_points_loop prev rest cur' newStrokes'))"

text \<open>The outer loop, over the strokes \<open>previousStrokes[i..]\<close> still to be read.\<close>

fun erasing_strokes_loop :: "stroke list \<Rightarrow> stroke list \<Rightarrow> stroke list" where
  "erasing_strokes_loop [] newStrokes = newStrokes"
| "erasing_strokes_loop (prev # rest) newStrokes =
     (let pts = (case points prev of None \<Rightarrow> [] | Some ps \<Rightarrow> ps)
      in erasing_strokes_loop rest (erasing_points_loop prev pts [] newStrokes))"

definition createNewStrokesAfterErasing :: "sketchpad \<Rightarrow> sketchpad" where
  "createNewStrokesAfterErasing s =
     (let previousStrokes = deepClone (strokes s)
      in s\<lparr>strokes := erasing_strokes_loop previousStrokes []\<rparr>)"

section \<open>The curve interpolator\<close>

text \<open>\<open>Math.hypot\<close> of two numbers, in exact arithmetic.\<close>

definition hypot :: "real \<Rightarrow> real \<Rightarrow> real" where
  "hypot a b = sqrt (a * a + b * b)"

text \<open>
  The loop of \<open>interpolateQuadraticCurve\<close>, from the counter \<open>pt\<close> on; the points it
  pushes are literals \<open>{x, y}\<close>.
\<close>

function interpolateQuadraticCurve_loop ::
  "point \<Rightarrow> point \<Rightarrow> point \<Rightarrow> int \<Rightarrow> int \<Rightarrow> point list \<Rightarrow> point list" where
  "interpolateQuadraticCurve_loop originPt controlPt destinationPt numPoints pt interpolatedPoints =
     (if pt < numPoints then
        (let t = real_of_int pt / real_of_int numPoints;
             a = (1 - t)\<^sup>2 * x originPt + 2 * (1 - t) * t * x controlPt + t\<^sup>2 * x destinationPt;
             b = (1 - t)\<^sup>2 * y originPt + 2 * (1 - t) * t * y controlPt + t\<^sup>2 * y destinationPt
         in interpolateQuadraticCurve_loop originPt controlPt destinationPt numPoints (pt + 1)
              (interpolatedPoints @ [\<lparr>x = a, y = b, skipped = None\<rparr>]))
      else interpolatedPoints)"
  by pat_completeness auto
termination
  by (relation "measure (\<lambda>(originPt, controlPt, destinationPt, numPoints, pt, acc). nat (numPoints - pt))")
     auto

declare interpolateQuadraticCurve_loop.simps [simp del]

definition interpolateQuadraticCurve :: "point \<Rightarrow> point \<Rightarrow> point \<Rightarrow> int \<Rightarrow> point list" where
  "interpolateQuadraticCurve originPt controlPt destinationPt numPoints =
     interpolateQuadraticCurve_loop originPt controlPt destinationPt numPoints 0 []"

text \<open>
  What \<open>interpolateExistingShapePaths\<close> does for one arc, at both places where it does
  it: the chord, the number of intervals, the samples, and the points pushed for them.
\<close>

definition interpolate_arc :: "sketchpad \<Rightarrow> real \<Rightarrow> point \<Rightarrow> point \<Rightarrow> point \<Rightarrow> point list" where
  "interpolate_arc s interval originPt controlPt destinationPt =
     (let distance = hypot (x destinationPt - x originPt) (y destinationPt - y originPt);
          numIntervals = max 1 \<lceil>distance / interval\<rceil>;
          interpolatedPoints =
            interpolateQuadraticCurve originPt controlPt destinationPt numIntervals
      in map (\<lambda>p. \<lparr>x = x p / canvasWidth s, y = y p / canvasHeight s, skipped = Some False\<rparr>)
           interpolatedPoints)"

text \<open>
  The \<open>for\<close> loop over \<open>j\<close>, from \<open>transformedPoints[j..]\<close> on: it runs while
  \<open>transformedPoints[j + 1]\<close> exists, and carries \<open>destinationPt\<close> and
  \<open>newStroke.points\<close>.
\<close>

fun interpolate_loop :: "sketchpad \<Rightarrow> real \<Rightarrow> point \<Rightarrow> point list \<Rightarrow> point list \<Rightarrow> point list" where
  "interpolate_loop s interval destinationPt (pj # pj1 # rest) newPoints =
     (let originPt = destinationPt;
          controlPt = pj;
          destinationPt' = midPoint pj pj1
      in interpolate_loop s interval destinationPt' (pj1 # rest)
           (newPoints @ interpolate_arc s interval originPt controlPt destinationPt'))"
| "interpolate_loop s interval destinationPt rest newPoints = newPoints"

text \<open>
  \<open>interpolateExistingShapePaths\<close>. Reading \<open>transformedPoints[0].x\<close> throws when the
  stroke has no point (or no \<open>points\<close>).
\<close>

definition interpolateExistingShapePaths :: "sketchpad \<Rightarrow> stroke \<Rightarrow> real \<Rightarrow> error + stroke" where
  "interpolateExistingShapePaths s st interval =
     (let pts = (case points st of None \<Rightarrow> [] | Some ps \<Rightarrow> ps);
          transformedPoints =
            map (\<lambda>p. \<lparr>x = x p * canvasWidth s, y = y p * canvasHeight s, skipped = Some False\<rparr>) pts;
          newStroke = st\<lparr>isInterpolationDone := Some True, points := Some []\<rparr>
      in case transformedPoints of
           [] \<Rightarrow> Inl TypeError
         | p0 # rest \<Rightarrow>
             (let first = \<lparr>x = x p0 / canvasWidth s, y = y p0 / canvasHeight s, skipped = None\<rparr>;
                  originPt = p0;
                  controlPt = originPt;
                  (destinationPt, newPoints) =
                    (case rest of
                       [] \<Rightarrow> (originPt, [first])
                     | p1 # _ \<Rightarrow>
                         (let destinationPt = midPoint p0 p1
                          in (destinationPt,
                              [first] @ interpolate_arc s interval originPt controlPt destinationPt)))
              in Inr (newStroke\<lparr>points :=
                   Some (interpolate_loop s interval destinationPt rest newPoints)\<rparr>)))"

definition createNewStrokesAfterInterpolation :: "stroke \<Rightarrow> real \<Rightarrow> sketchpad \<Rightarrow> error + sketchpad" where
  "createNewStrokesAfterInterpolation st interval s =
     (let s1 = s\<lparr>strokes := butlast (strokes s)\<rparr>
      in case interpolateExistingShapePaths s1 st interval of
           Inl er \<Rightarrow> Inl er
         | Inr newStroke \<Rightarrow> Inr (s1\<lparr>strokes := strokes s1 @ [newStroke]\<rparr>))"

section \<open>The pointer handlers\<close>

definition startStrokeHandler :: "event \<Rightarrow> sketchpad \<Rightarrow> error + sketchpad" where
  "startStrokeHandler e s0 =
     (if readOnly s0 then Inr s0
      else
        (let s1 = s0\<lparr>sketching := True\<rparr>;
             p = getCursorRelativeToCanvas s1 e
         in if isEraserActive s1 then erasePoints p s1 else Inr (pushStroke [p] s1)))"


text \<open>
  \<open>endStrokeHandler\<close>; the interval it passes to the interpolator is 2. A touch event
  returns before anything but \<open>sketching\<close> has changed.
\<close>

definition endStrokeHandler :: "event \<Rightarrow> sketchpad \<Rightarrow> error + sketchpad" where
  "endStrokeHandler e s0 =
     (if \<not> sketching s0 then Inr s0
      else
        (let s1 = s0\<lparr>sketching := False\<rparr>
         in if isTouchEvent e then Inr s1
            else
              (let p = getCursorRelativeToCanvas s1 e;
                   r = (if isEraserActive s1 then erasePoints p s1
                        else (case pushPoint p s1 of
                                Inl er \<Rightarrow> Inl er
                              | Inr s2 \<Rightarrow>
                                  createNewStrokesAfterInterpolation (last (strokes s2)) 2 s2))
               in case r of
                    Inl er \<Rightarrow> Inl er
                  | Inr s3 \<Rightarrow> Inr (createNewStrokesAfterErasing s3))))"

section \<open>Loading a document\<close>

text \<open>\<open>loadJSON\<close> replaces the stroke list by the strokes of the data, as they are.\<close>

definition loadJSON :: "DataI \<Rightarrow> sketchpad \<Rightarrow> sketchpad" where
  "loadJSON data s =
     (let strokeObjs = (case strokesD data of None \<Rightarrow> [] | Some ss \<Rightarrow> ss)
      in s\<lparr>strokes := map fromObj strokeObjs\<rparr>)"

section \<open>Notions used to state the properties\<close>

text \<open>
  The fragments of one stroke: what the inner loop of \<open>createNewStrokesAfterErasing\<close>
  adds to an empty \<open>newStrokes\<close> for it.
\<close>

definition fragments :: "stroke \<Rightarrow> stroke list" where
  "fragments st = erasing_points_loop st (case points st of None \<Rightarrow> [] | Some ps \<Rightarrow> ps) [] []"

text \<open>A stroke list has a skipped point when some point of some stroke is marked.\<close>

definition has_skipped_point :: "stroke list \<Rightarrow> bool" where
  "has_skipped_point ss =
     list_ex (\<lambda>st. case points st of None \<Rightarrow> False | Some ps \<Rightarrow> list_ex truthy_skipped ps) ss"

text \<open>
  Point marking alone, on one stroke that has points: the stroke keeps its style and the
  number of its points, and each point goes through the callback of \<open>erasePoints\<close>.
\<close>

definition mark_stroke :: "real \<Rightarrow> point \<Rightarrow> stroke \<Rightarrow> stroke" where
  "mark_stroke areaOfEraser cursor st =
     st\<lparr>points := map_option (map (erasePoint areaOfEraser cursor)) (points st)\<rparr>"




subsection \<open>The interpolation, in the words of the specification\<close>

text \<open>
  The quadratic curve \<open>B(t) = (1-t)\<^sup>2 origin + 2(1-t)t control + t\<^sup>2 destination\<close>, by
  coordinate; a sample is a literal \<open>{x, y}\<close>.
\<close>

definition bezier :: "point \<Rightarrow> point \<Rightarrow> point \<Rightarrow> real \<Rightarrow> point" where
  "bezier originPt controlPt destinationPt t =
     \<lparr>x = (1 - t)\<^sup>2 * x originPt + 2 * (1 - t) * t * x controlPt + t\<^sup>2 * x destinationPt,
      y = (1 - t)\<^sup>2 * y originPt + 2 * (1 - t) * t * y controlPt + t\<^sup>2 * y destinationPt,
      skipped = None\<rparr>"

text \<open>The number of samples of an arc of chord \<open>L\<close> at the interval \<open>k\<close>.\<close>

definition spec_sample_count :: "real \<Rightarrow> real \<Rightarrow> nat" where
  "spec_sample_count L k = nat (max 1 \<lceil>L / k\<rceil>)"

text \<open>The \<open>n\<close> samples at \<open>t = i/n\<close>, for \<open>i\<close> from 0 to \<open>n - 1\<close>.\<close>

definition spec_samples :: "point \<Rightarrow> point \<Rightarrow> point \<Rightarrow> nat \<Rightarrow> point list" where
  "spec_samples originPt controlPt destinationPt n =
     map (\<lambda>i. bezier originPt controlPt destinationPt (real i / real n)) [0..<n]"

text \<open>Denormalising a raw point, and normalising a sample.\<close>

definition to_pixel :: "sketchpad \<Rightarrow> point \<Rightarrow> point" where
  "to_pixel s p = \<lparr>x = x p * canvasWidth s, y = y p * canvasHeight s, skipped = Some False\<rparr>"

definition to_normalized :: "sketchpad \<Rightarrow> point \<Rightarrow> point" where
  "to_normalized s p = \<lparr>x = x p / canvasWidth s, y = y p / canvasHeight s, skipped = Some False\<rparr>"

text \<open>
  The arcs of the points \<open>P\<close>, as origin, control point and destination: one arc for
  each point but the last. Arc \<open>j\<close> has the point \<open>j\<close> as control point and ends at the
  midpoint of the points \<open>j\<close> and \<open>j + 1\<close>; it starts at the midpoint of the points
  \<open>j - 1\<close> and \<open>j\<close>, and the first arc at the first point.
\<close>

definition spec_arcs :: "point list \<Rightarrow> (point \<times> point \<times> point) list" where
  "spec_arcs P =
     map (\<lambda>j. (if j = 0 then P ! 0 else midPoint (P ! (j - 1)) (P ! j),
                P ! j,
                midPoint (P ! j) (P ! (j + 1))))
       [0..<length P - 1]"

text \<open>
  The points an arc contributes: its samples, their number given by the chord between
  origin and destination, in normalised coordinates.
\<close>

definition spec_arc_samples :: "sketchpad \<Rightarrow> real \<Rightarrow> point \<times> point \<times> point \<Rightarrow> point list" where
  "spec_arc_samples s k arc =
     (case arc of (originPt, controlPt, destinationPt) \<Rightarrow>
        map (to_normalized s)
          (spec_samples originPt controlPt destinationPt
             (spec_sample_count
                (hypot (x destinationPt - x originPt) (y destinationPt - y originPt)) k)))"

text \<open>
  The interpolation of the raw points \<open>p # ps\<close>: the first point, denormalised and
  normalised again, then the points of all arcs in order.
\<close>

definition spec_interpolation :: "sketchpad \<Rightarrow> real \<Rightarrow> point \<Rightarrow> point list \<Rightarrow> point list" where
  "spec_interpolation s k p ps =
     \<lparr>x = x (to_pixel s p) / canvasWidth s, y = y (to_pixel s p) / canvasHeight s,
      skipped = None\<rparr> #
     concat (map (spec_arc_samples s k) (spec_arcs (map (to_pixel s) (p # ps))))"

text \<open>
  The arcs as the \<open>for\<close> loop of the source meets them, from the destination \<open>d\<close> of
  the arc before: an auxiliary form of \<open>spec_arcs\<close> for the proofs.
\<close>

fun arcs_from :: "point \<Rightarrow> point list \<Rightarrow> (point \<times> point \<times> point) list" where
  "arcs_from d (pj # pj1 # rest) =
     (d, pj, midPoint pj pj1) # arcs_from (midPoint pj pj1) (pj1 # rest)"
| "arcs_from d rest = []"

section \<open>Example documents\<close>

text \<open>
  Concrete values at which the properties below are evaluated: a finished stroke, an idle
  sketchpad of 100 by 100 pixels holding it (an eraser of 20 pixels has the radius 1/10
  there), mouse events, line options, and variants of the stroke and of the sketchpad.
\<close>

definition example_stroke :: stroke where
  "example_stroke =
     \<lparr>points = Some [Point (1/10) (1/10), Point (1/5) (1/5)], width = Some (1/20),
      color = Some ''#000'', cap = Some Cap_round, join = Some Join_round,
      miterLimit = Some 10, isInterpolationDone = Some True\<rparr>"

definition example_pad :: sketchpad where
  "example_pad =
     \<lparr>canvasWidth = 100, canvasHeight = 100, sketching = False, isEraserActive = False,
      strokes = [example_stroke], undoneStrokes = [], backgroundColor = None,
      readOnly = False, aspectRatio = 1, lineWidth = 5, lineColor = ''#000'',
      lineCap = Cap_round, lineJoin = Join_round, lineMiterLimit = 10,
      lineIsInterpolationDone = False, eraserSize = 20\<rparr>"

definition mouse_at :: "real \<Rightarrow> real \<Rightarrow> event" where
  "mouse_at a b = \<lparr>isTouchEvent = False, offsetX = a, offsetY = b\<rparr>"

definition no_line_options :: LineOptionsI where
  "no_line_options =
     \<lparr>sizeI = None, colorI = None, capI = None, joinI = None, miterLimitI = None,
      isInterpolationDoneI = None\<rparr>"

definition drawing_pad :: sketchpad where
  "drawing_pad =
     example_pad\<lparr>sketching := True,
       strokes := [example_stroke\<lparr>points := Some [Point 0 0],
                                  isInterpolationDone := Some False\<rparr>],
       undoneStrokes := [example_stroke]\<rparr>"

definition red_line_options :: LineOptionsI where
  "red_line_options =
     \<lparr>sizeI = Some 9, colorI = Some ''#f00'', capI = Some Cap_square, joinI = None,
      miterLimitI = Some 0, isInterpolationDoneI = None\<rparr>"

definition marked_stroke :: stroke where
  "marked_stroke =
     example_stroke\<lparr>points := Some [\<lparr>x = 1/10, y = 1/10, skipped = Some True\<rparr>,
                                      Point (1/5) (1/5)]\<rparr>"



definition zero_pad :: sketchpad where
  "zero_pad = example_pad\<lparr>eraserSize := 0\<rparr>"

definition wide_pad :: sketchpad where
  "wide_pad = example_pad\<lparr>eraserSize := 40\<rparr>"

definition five_stroke :: stroke where
  "five_stroke =
     example_stroke\<lparr>points := Some [Point (1/10) (1/10), Point (2/10) (2/10),
        \<lparr>x = 3/10, y = 3/10, skipped = Some True\<rparr>, Point (4/10) (4/10), Point (5/10) (5/10)]\<rparr>"

definition all_marked_stroke :: stroke where
  "all_marked_stroke =
     example_stroke\<lparr>points := Some [\<lparr>x = 1/10, y = 1/10, skipped = Some True\<rparr>,
                                      \<lparr>x = 1/5, y = 1/5, skipped = Some True\<rparr>]\<rparr>"

definition empty_stroke :: stroke where
  "empty_stroke = example_stroke\<lparr>points := Some []\<rparr>"

definition empty_stroke_data :: DataI where
  "empty_stroke_data =
     \<lparr>aspectRatioD = Some 1,
      strokesD = Some [\<lparr>sizeI = Some (1/20), colorI = Some ''#000'', capI = Some Cap_round,
        joinI = Some Join_round, miterLimitI = Some 10, isInterpolationDoneI = Some True,
        pointsI = Some []\<rparr>]\<rparr>"

definition raw_stroke :: stroke where
  "raw_stroke =
     example_stroke\<lparr>points := Some [Point 0 0, Point (3/50) (2/25)],
                    isInterpolationDone := Some False\<rparr>"

definition dot_stroke :: stroke where
  "dot_stroke =
     example_stroke\<lparr>points := Some [Point (3/10) (7/10)], isInterpolationDone := Some False\<rparr>"

definition smooth_points :: "point list" where
  "smooth_points =
     [\<lparr>x = 0, y = 0, skipped = None\<rparr>,
      \<lparr>x = 0, y = 0, skipped = Some False\<rparr>,
      \<lparr>x = 1/300, y = 1/225, skipped = Some False\<rparr>,
      \<lparr>x = 1/75, y = 4/225, skipped = Some False\<rparr>]"










section \<open>Properties of the history\<close>

subsection \<open>Undo and redo\<close>

text \<open>
  C7. On a non-empty stroke list \<open>undo\<close> moves exactly the last stroke to the end of
  the undo stack, and a \<open>redo\<close> right after it gives back the sketchpad as it was: the
  same stroke list, with the same stroke (points and style) at its end, and the same undo
  stack. \<open>undo\<close> on an empty stroke list and \<open>redo\<close> on an empty undo stack change
  nothing.
\<close>

theorem undo_redo_restores:
  "(strokes s \<noteq> [] \<longrightarrow>
      strokes (undo s) = butlast (strokes s) \<and>
      undoneStrokes (undo s) = undoneStrokes s @ [last (strokes s)] \<and>
      redo (undo s) = s) \<and>
   (strokes s = [] \<longrightarrow> undo s = s) \<and>
   (undoneStrokes s = [] \<longrightarrow> redo s = s)"
  by (simp add: undo_def redo_def)

theorem undo_redo_restores_witness:
  "strokes example_pad \<noteq> [] \<and>
   strokes (undo example_pad) = [] \<and>
   undoneStrokes (undo example_pad) = [example_stroke] \<and>
   redo (undo example_pad) = example_pad \<and>
   undo (undo example_pad) = undo example_pad \<and>
   undoneStrokes example_pad = [] \<and>
   redo example_pad = example_pad"
  using undo_redo_restores [of example_pad] undo_redo_restores [of "undo example_pad"]
  by (simp add: example_pad_def)

subsection \<open>Clear\<close>

text \<open>
  C8. \<open>clear\<close> leaves the stroke list and the undo stack empty, so an \<open>undo\<close> right
  after it changes nothing: the strokes \<open>clear\<close> discards are not put on the undo
  stack.
\<close>

theorem clear_then_undo:
  "strokes (clear s) = [] \<and> undoneStrokes (clear s) = [] \<and> undo (clear s) = clear s"
  by (simp add: clear_def undo_def)

subsection \<open>The undo stack is kept by every other operation\<close>

lemma setOptions_undoneStrokes: "undoneStrokes (setOptions opts s) = undoneStrokes s"
  by (simp add: setOptions_def Let_def split: option.splits)

lemma pushStroke_undoneStrokes: "undoneStrokes (pushStroke pts s) = undoneStrokes s"
  by (simp add: pushStroke_def)

lemma erasePoints_undoneStrokes:
  "erasePoints c s = Inr s' \<Longrightarrow> undoneStrokes s' = undoneStrokes s"
  by (auto simp: erasePoints_def Let_def split: sum.splits)

lemma pushPoint_undoneStrokes:
  "pushPoint p s = Inr s' \<Longrightarrow> undoneStrokes s' = undoneStrokes s"
  by (auto simp: pushPoint_def Let_def split: if_splits option.splits)

lemma createNewStrokesAfterInterpolation_undoneStrokes:
  "createNewStrokesAfterInterpolation st k s = Inr s' \<Longrightarrow> undoneStrokes s' = undoneStrokes s"
  by (auto simp: createNewStrokesAfterInterpolation_def Let_def split: sum.splits)

lemma createNewStrokesAfterErasing_undoneStrokes:
  "undoneStrokes (createNewStrokesAfterErasing s) = undoneStrokes s"
  by (simp add: createNewStrokesAfterErasing_def Let_def)

lemma startStrokeHandler_undoneStrokes:
  "startStrokeHandler e s = Inr s' \<Longrightarrow> undoneStrokes s' = undoneStrokes s"
  by (auto simp: startStrokeHandler_def Let_def pushStroke_undoneStrokes
      split: if_splits dest: erasePoints_undoneStrokes)

lemma endStrokeHandler_undoneStrokes:
  "endStrokeHandler e s = Inr s' \<Longrightarrow> undoneStrokes s' = undoneStrokes s"
  by (auto simp: endStrokeHandler_def Let_def createNewStrokesAfterErasing_undoneStrokes
      split: if_splits sum.splits
      dest!: erasePoints_undoneStrokes pushPoint_undoneStrokes
        createNewStrokesAfterInterpolation_undoneStrokes)

lemma drawLine_undoneStrokes: "undoneStrokes (drawLine a b lo s) = undoneStrokes s"
  by (simp add: drawLine_def Let_def pushStroke_undoneStrokes setOptions_undoneStrokes)

lemma redo_changes: "undoneStrokes s \<noteq> [] \<Longrightarrow> redo s \<noteq> s"
proof
  assume ne: "undoneStrokes s \<noteq> []" and eq: "redo s = s"
  from ne have "length (undoneStrokes (redo s)) = length (undoneStrokes s) - 1"
    by (simp add: redo_def)
  with eq ne show False by (cases "undoneStrokes s") auto
qed

lemma redo_last:
  "undoneStrokes s \<noteq> [] \<Longrightarrow> last (strokes (redo s)) = last (undoneStrokes s)"
  by (simp add: redo_def)

lemma drawing_pad_reached:
  "startStrokeHandler (mouse_at 0 0) (undo example_pad) = Inr drawing_pad"
  by (simp add: startStrokeHandler_def undo_def example_pad_def drawing_pad_def mouse_at_def
      getCursorRelativeToCanvas_def Point_def pushStroke_def fromObj_def example_stroke_def
      getLineWidthRelativeToCanvas_def)

lemma drawing_pad_ends:
  "\<exists>s'. endStrokeHandler (mouse_at 6 8) drawing_pad = Inr s'"
  by (simp add: endStrokeHandler_def drawing_pad_def example_pad_def mouse_at_def
      Let_def pushPoint_def createNewStrokesAfterInterpolation_def
      interpolateExistingShapePaths_def split: prod.splits)

text \<open>
  C1, as the source has it. No operation that adds a stroke touches the undo stack:
  after an \<open>undo\<close>, neither \<open>drawLine\<close> nor a stroke drawn with the pointer empties it.
  Here a stroke is undone, a new one is added (by \<open>drawLine\<close>, and by a pointer-down at
  the origin followed by a pointer-up), and the \<open>redo\<close> that follows is no no-op: it puts
  the undone stroke on top of the new one.
\<close>

theorem redo_after_new_stroke_counterexample:
  "undoneStrokes (drawLine (Point 0 0) (Point 50 50) no_line_options (undo example_pad))
     = [example_stroke] \<and>
   redo (drawLine (Point 0 0) (Point 50 50) no_line_options (undo example_pad))
     \<noteq> drawLine (Point 0 0) (Point 50 50) no_line_options (undo example_pad) \<and>
   last (strokes (redo (drawLine (Point 0 0) (Point 50 50) no_line_options (undo example_pad))))
     = example_stroke \<and>
   (case endStrokeHandler (mouse_at 6 8) drawing_pad of
      Inl er \<Rightarrow> False
    | Inr s' \<Rightarrow> undoneStrokes s' = [example_stroke] \<and> redo s' \<noteq> s'
        \<and> last (strokes (redo s')) = example_stroke)"
proof -
  let ?d = "drawLine (Point 0 0) (Point 50 50) no_line_options (undo example_pad)"
  have u: "undoneStrokes ?d = [example_stroke]"
    by (simp add: drawLine_undoneStrokes undo_def example_pad_def)
  obtain s' where s': "endStrokeHandler (mouse_at 6 8) drawing_pad = Inr s'"
    using drawing_pad_ends ..
  then have u': "undoneStrokes s' = [example_stroke]"
    using endStrokeHandler_undoneStrokes [OF s'] by (simp add: drawing_pad_def)
  show ?thesis
    using u u' s' redo_changes [of ?d] redo_changes [of s'] redo_last [of ?d] redo_last [of s']
    by simp
qed

text \<open>
  C1, amended. \<open>drawLine\<close>, the pointer-down handler and the pointer-up handler leave
  the undo stack as it is. So when a stroke has been undone, a \<open>redo\<close> right after a
  new stroke, inserted by \<open>drawLine\<close> or completed at pointer-up, appends the stroke
  undone last to the stroke list, after the new stroke.
\<close>

theorem new_stroke_keeps_redo_stack:
  "undoneStrokes (drawLine a b lo s) = undoneStrokes s \<and>
   (\<forall>s'. endStrokeHandler e s = Inr s' \<longrightarrow> undoneStrokes s' = undoneStrokes s) \<and>
   (\<forall>s'. startStrokeHandler e s = Inr s' \<longrightarrow> undoneStrokes s' = undoneStrokes s) \<and>
   (undoneStrokes s \<noteq> [] \<longrightarrow>
      strokes (redo (drawLine a b lo s)) =
        strokes (drawLine a b lo s) @ [last (undoneStrokes s)]) \<and>
   (\<forall>s'. undoneStrokes s \<noteq> [] \<and> endStrokeHandler e s = Inr s' \<longrightarrow>
      strokes (redo s') = strokes s' @ [last (undoneStrokes s)])"
proof (intro conjI allI impI)
  show "undoneStrokes (drawLine a b lo s) = undoneStrokes s"
    by (rule drawLine_undoneStrokes)
next
  fix s' assume "endStrokeHandler e s = Inr s'"
  then show "undoneStrokes s' = undoneStrokes s"
    by (rule endStrokeHandler_undoneStrokes)
next
  fix s' assume "startStrokeHandler e s = Inr s'"
  then show "undoneStrokes s' = undoneStrokes s"
    by (rule startStrokeHandler_undoneStrokes)
next
  assume "undoneStrokes s \<noteq> []"
  then show "strokes (redo (drawLine a b lo s)) =
      strokes (drawLine a b lo s) @ [last (undoneStrokes s)]"
    by (simp add: redo_def drawLine_undoneStrokes)
next
  fix s' assume a: "undoneStrokes s \<noteq> [] \<and> endStrokeHandler e s = Inr s'"
  then have "undoneStrokes s' = undoneStrokes s"
    using endStrokeHandler_undoneStrokes [of e s s'] by simp
  with a show "strokes (redo s') = strokes s' @ [last (undoneStrokes s)]"
    by (simp add: redo_def)
qed

theorem new_stroke_keeps_redo_stack_witness:
  "undoneStrokes (undo example_pad) = [example_stroke] \<and>
   undoneStrokes (drawLine (Point 0 0) (Point 50 50) no_line_options (undo example_pad))
     = [example_stroke] \<and>
   strokes (redo (drawLine (Point 0 0) (Point 50 50) no_line_options (undo example_pad)))
     = strokes (drawLine (Point 0 0) (Point 50 50) no_line_options (undo example_pad))
         @ [example_stroke] \<and>
   startStrokeHandler (mouse_at 0 0) (undo example_pad) = Inr drawing_pad \<and>
   undoneStrokes drawing_pad = [example_stroke] \<and>
   (case endStrokeHandler (mouse_at 6 8) drawing_pad of
      Inl er \<Rightarrow> False
    | Inr s' \<Rightarrow> undoneStrokes s' = [example_stroke] \<and>
        strokes (redo s') = strokes s' @ [example_stroke])"
proof -
  have u: "undoneStrokes (undo example_pad) = [example_stroke]"
    "undoneStrokes drawing_pad = [example_stroke]"
    by (simp_all add: undo_def example_pad_def drawing_pad_def)
  obtain s' where s': "endStrokeHandler (mouse_at 6 8) drawing_pad = Inr s'"
    using drawing_pad_ends ..
  show ?thesis
    using u s' drawing_pad_reached
      new_stroke_keeps_redo_stack [where s = "undo example_pad" and e = "mouse_at 0 0"
        and a = "Point 0 0" and b = "Point 50 50" and lo = no_line_options]
      new_stroke_keeps_redo_stack [where s = drawing_pad and e = "mouse_at 6 8"]
    by simp
qed

section \<open>Properties of drawLine\<close>

lemma setOptions_line_only:
  "setOptions \<lparr>backgroundColorO = None, readOnlyO = None, widthO = None, heightO = None,
      aspectRatioO = None, lineO = Some lo, dataO = None\<rparr> s =
   s\<lparr>lineWidth := (case sizeI lo of None \<Rightarrow> lineWidth s
                    | Some v \<Rightarrow> if v \<noteq> 0 then v else lineWidth s),
      lineIsInterpolationDone :=
        (case isInterpolationDoneI lo of None \<Rightarrow> lineIsInterpolationDone s
         | Some v \<Rightarrow> if v then True else lineIsInterpolationDone s),
      lineCap := (case capI lo of None \<Rightarrow> lineCap s | Some v \<Rightarrow> v),
      lineJoin := (case joinI lo of None \<Rightarrow> lineJoin s | Some v \<Rightarrow> v),
      lineMiterLimit := (case miterLimitI lo of None \<Rightarrow> lineMiterLimit s
                    | Some v \<Rightarrow> if v \<noteq> 0 then v else lineMiterLimit s)\<rparr>"
  by (simp add: setOptions_def line_opt_def truthy_str_def Let_def split: option.splits)

text \<open>
  C9. \<open>drawLine\<close> writes the line options into the sketchpad's own defaults: a size or
  miter limit that is present and not zero, and a cap or join that is present, replace the
  default, and stay replaced for every stroke pushed afterwards. The colour of the options
  is never read: \<open>drawLine\<close> gives the same result whatever it is, the default colour
  is unchanged, and the line inserted carries the default colour set before the call.
\<close>

theorem drawLine_mutates_defaults:
  "lineWidth (drawLine a b lo s) =
     (case sizeI lo of None \<Rightarrow> lineWidth s | Some v \<Rightarrow> if v \<noteq> 0 then v else lineWidth s) \<and>
   lineCap (drawLine a b lo s) = (case capI lo of None \<Rightarrow> lineCap s | Some v \<Rightarrow> v) \<and>
   lineJoin (drawLine a b lo s) = (case joinI lo of None \<Rightarrow> lineJoin s | Some v \<Rightarrow> v) \<and>
   lineMiterLimit (drawLine a b lo s) =
     (case miterLimitI lo of None \<Rightarrow> lineMiterLimit s
      | Some v \<Rightarrow> if v \<noteq> 0 then v else lineMiterLimit s) \<and>
   lineColor (drawLine a b lo s) = lineColor s \<and>
   drawLine a b (lo\<lparr>colorI := c\<rparr>) s = drawLine a b lo s \<and>
   strokes (drawLine a b lo s) = strokes s @
     [\<lparr>points = Some [\<lparr>x = x a / canvasWidth s, y = y a / canvasHeight s,
                         skipped = Some False\<rparr>,
                       \<lparr>x = x b / canvasWidth s, y = y b / canvasHeight s,
                         skipped = Some False\<rparr>],
       width = Some (lineWidth (drawLine a b lo s) / canvasWidth s),
       color = Some (lineColor s),
       cap = Some (lineCap (drawLine a b lo s)),
       join = Some (lineJoin (drawLine a b lo s)),
       miterLimit = Some (lineMiterLimit (drawLine a b lo s)),
       isInterpolationDone = Some (lineIsInterpolationDone (drawLine a b lo s))\<rparr>] \<and>
   strokes (pushStroke pts (drawLine a b lo s)) = strokes (drawLine a b lo s) @
     [\<lparr>points = Some pts,
       width = Some (lineWidth (drawLine a b lo s) / canvasWidth s),
       color = Some (lineColor s),
       cap = Some (lineCap (drawLine a b lo s)),
       join = Some (lineJoin (drawLine a b lo s)),
       miterLimit = Some (lineMiterLimit (drawLine a b lo s)),
       isInterpolationDone = Some (lineIsInterpolationDone (drawLine a b lo s))\<rparr>]"
  unfolding drawLine_def Let_def setOptions_line_only
  by (simp add: pushStroke_def fromObj_def getPointRelativeToCanvas_def Point_def
      getLineWidthRelativeToCanvas_def)

theorem drawLine_mutates_defaults_witness:
  "lineWidth (drawLine (Point 0 0) (Point 50 50) red_line_options example_pad) = 9 \<and>
   lineCap (drawLine (Point 0 0) (Point 50 50) red_line_options example_pad) = Cap_square \<and>
   lineJoin (drawLine (Point 0 0) (Point 50 50) red_line_options example_pad) = Join_round \<and>
   lineMiterLimit (drawLine (Point 0 0) (Point 50 50) red_line_options example_pad) = 10 \<and>
   lineColor (drawLine (Point 0 0) (Point 50 50) red_line_options example_pad) = ''#000'' \<and>
   color (last (strokes (drawLine (Point 0 0) (Point 50 50) red_line_options example_pad)))
     = Some ''#000'' \<and>
   width (last (strokes (pushStroke [Point 0 0]
       (drawLine (Point 0 0) (Point 50 50) red_line_options example_pad)))) = Some (9 / 100)"
  using drawLine_mutates_defaults
    [of "Point 0 0" "Point 50 50" red_line_options example_pad _ "[Point 0 0]"]
  by (simp add: red_line_options_def example_pad_def)

section \<open>Properties of the eraser\<close>

subsection \<open>Fragments\<close>

text \<open>
  The strokes already collected are a prefix of what the inner loop returns.
\<close>

lemma erasing_points_loop_acc:
  "erasing_points_loop prev ps cur out = out @ erasing_points_loop prev ps cur []"
proof (induction ps arbitrary: cur out)
  case Nil
  show ?case by simp
next
  case (Cons p rest)
  show ?case
  proof (cases "truthy_skipped p")
    case True
    then show ?thesis
      using Cons.IH [of "[]" "out @ [deepClone (prev\<lparr>points := Some cur\<rparr>)]"]
        Cons.IH [of "[]" "[deepClone (prev\<lparr>points := Some cur\<rparr>)]"]
        Cons.IH [of cur out]
      by auto
  next
    case False
    then show ?thesis
      using Cons.IH [of "cur @ [p]" "out @ [deepClone (prev\<lparr>points := Some (cur @ [p])\<rparr>)]"]
        Cons.IH [of "cur @ [p]" "[deepClone (prev\<lparr>points := Some (cur @ [p])\<rparr>)]"]
        Cons.IH [of "cur @ [p]" out]
      by (simp add: Let_def)
  qed
qed

lemma erasing_strokes_loop_concat:
  "erasing_strokes_loop ss out = out @ concat (map fragments ss)"
proof (induction ss arbitrary: out)
  case Nil
  show ?case by simp
next
  case (Cons st rest)
  show ?case
    using erasing_points_loop_acc [of st _ "[]" out]
    by (simp add: Cons.IH fragments_def Let_def)
qed

lemma createNewStrokesAfterErasing_fragments:
  "strokes (createNewStrokesAfterErasing s) = concat (map fragments (strokes s))"
  by (simp add: createNewStrokesAfterErasing_def Let_def deepClone_def erasing_strokes_loop_concat)

lemma all_skipped_no_fragment:
  "list_all truthy_skipped ps \<Longrightarrow> erasing_points_loop prev ps [] out = out"
  by (induction ps arbitrary: out) auto

lemma none_skipped_one_fragment:
  "ps \<noteq> [] \<Longrightarrow> list_all (\<lambda>p. \<not> truthy_skipped p) ps \<Longrightarrow>
     erasing_points_loop prev ps cur out = out @ [prev\<lparr>points := Some (cur @ ps)\<rparr>]"
proof (induction ps arbitrary: cur out)
  case Nil
  then show ?case by simp
next
  case (Cons p rest)
  show ?case
  proof (cases "rest = []")
    case True
    with Cons.prems show ?thesis by (simp add: deepClone_def)
  next
    case False
    with Cons.prems Cons.IH [of "cur @ [p]" out] show ?thesis by (simp add: Let_def)
  qed
qed

lemma five_points_middle_skipped:
  "\<not> truthy_skipped p1 \<Longrightarrow> \<not> truthy_skipped p2 \<Longrightarrow> truthy_skipped p3 \<Longrightarrow>
   \<not> truthy_skipped p4 \<Longrightarrow> \<not> truthy_skipped p5 \<Longrightarrow>
     erasing_points_loop prev [p1, p2, p3, p4, p5] [] [] =
       [prev\<lparr>points := Some [p1, p2]\<rparr>, prev\<lparr>points := Some [p4, p5]\<rparr>]"
  by (simp add: deepClone_def Let_def)

text \<open>
  C4, as stated, fails for a stroke without points: none of its points is marked, and
  yet it has no fragment, where the claim promises exactly one. \<open>loadJSON\<close> accepts such
  a stroke.
\<close>

theorem untouched_empty_stroke_counterexample:
  "strokes (loadJSON empty_stroke_data example_pad) = [empty_stroke] \<and>
   points empty_stroke = Some [] \<and>
   \<not> has_skipped_point [empty_stroke] \<and>
   fragments empty_stroke = [] \<and>
   fragments empty_stroke \<noteq> [empty_stroke] \<and>
   strokes (createNewStrokesAfterErasing (loadJSON empty_stroke_data example_pad)) = []"
  by (simp add: createNewStrokesAfterErasing_fragments loadJSON_def fromObj_def fragments_def
      has_skipped_point_def example_pad_def example_stroke_def empty_stroke_def
      empty_stroke_data_def)

text \<open>
  C4, amended. Re-segmentation replaces the stroke list by the fragments of its strokes,
  in order. A stroke whose points are all marked has no fragment, so it is not in the new
  list. A stroke with at least one point and no marked point has exactly one fragment,
  equal to itself (points and style). A stroke of five points of which only the third is
  marked has exactly two fragments, of the first two and of the last two points, each
  with the style of the stroke.
\<close>

theorem resegmentation_fragments:
  "strokes (createNewStrokesAfterErasing s) = concat (map fragments (strokes s)) \<and>
   (points st = Some ps \<and> list_all truthy_skipped ps \<longrightarrow> fragments st = []) \<and>
   (points st = Some ps \<and> ps \<noteq> [] \<and> list_all (\<lambda>p. \<not> truthy_skipped p) ps \<longrightarrow>
      fragments st = [st]) \<and>
   (points st = Some [p1, p2, p3, p4, p5] \<and> \<not> truthy_skipped p1 \<and> \<not> truthy_skipped p2 \<and>
    truthy_skipped p3 \<and> \<not> truthy_skipped p4 \<and> \<not> truthy_skipped p5 \<longrightarrow>
      fragments st = [st\<lparr>points := Some [p1, p2]\<rparr>, st\<lparr>points := Some [p4, p5]\<rparr>])"
proof (intro conjI impI)
  show "strokes (createNewStrokesAfterErasing s) = concat (map fragments (strokes s))"
    by (rule createNewStrokesAfterErasing_fragments)
next
  assume "points st = Some ps \<and> list_all truthy_skipped ps"
  then show "fragments st = []"
    by (simp add: fragments_def all_skipped_no_fragment)
next
  assume a: "points st = Some ps \<and> ps \<noteq> [] \<and> list_all (\<lambda>p. \<not> truthy_skipped p) ps"
  then have "fragments st = [st\<lparr>points := Some ps\<rparr>]"
    using none_skipped_one_fragment [of ps st "[]" "[]"] by (simp add: fragments_def)
  with a show "fragments st = [st]" by simp
next
  assume "points st = Some [p1, p2, p3, p4, p5] \<and> \<not> truthy_skipped p1 \<and> \<not> truthy_skipped p2 \<and>
    truthy_skipped p3 \<and> \<not> truthy_skipped p4 \<and> \<not> truthy_skipped p5"
  then show "fragments st = [st\<lparr>points := Some [p1, p2]\<rparr>, st\<lparr>points := Some [p4, p5]\<rparr>]"
    using five_points_middle_skipped [of p1 p2 p3 p4 p5 st] by (simp add: fragments_def)
qed

theorem resegmentation_fragments_witness:
  "points all_marked_stroke =
     Some [\<lparr>x = 1/10, y = 1/10, skipped = Some True\<rparr>, \<lparr>x = 1/5, y = 1/5, skipped = Some True\<rparr>] \<and>
   fragments all_marked_stroke = [] \<and>
   points example_stroke = Some [Point (1/10) (1/10), Point (1/5) (1/5)] \<and>
   fragments example_stroke = [example_stroke] \<and>
   points five_stroke = Some [Point (1/10) (1/10), Point (2/10) (2/10),
        \<lparr>x = 3/10, y = 3/10, skipped = Some True\<rparr>, Point (4/10) (4/10), Point (5/10) (5/10)] \<and>
   fragments five_stroke =
     [five_stroke\<lparr>points := Some [Point (1/10) (1/10), Point (2/10) (2/10)]\<rparr>,
      five_stroke\<lparr>points := Some [Point (4/10) (4/10), Point (5/10) (5/10)]\<rparr>] \<and>
   strokes (createNewStrokesAfterErasing
       (example_pad\<lparr>strokes := [all_marked_stroke, example_stroke, five_stroke]\<rparr>)) =
     [example_stroke,
      five_stroke\<lparr>points := Some [Point (1/10) (1/10), Point (2/10) (2/10)]\<rparr>,
      five_stroke\<lparr>points := Some [Point (4/10) (4/10), Point (5/10) (5/10)]\<rparr>]"
proof -
  have a: "points all_marked_stroke =
      Some [\<lparr>x = 1/10, y = 1/10, skipped = Some True\<rparr>, \<lparr>x = 1/5, y = 1/5, skipped = Some True\<rparr>]"
    by (simp add: all_marked_stroke_def)
  have b: "points example_stroke = Some [Point (1/10) (1/10), Point (1/5) (1/5)]"
    by (simp add: example_stroke_def)
  have c: "points five_stroke = Some [Point (1/10) (1/10), Point (2/10) (2/10),
        \<lparr>x = 3/10, y = 3/10, skipped = Some True\<rparr>, Point (4/10) (4/10), Point (5/10) (5/10)]"
    by (simp add: five_stroke_def)
  have t: "truthy_skipped \<lparr>x = 1/10, y = 1/10, skipped = Some True\<rparr>"
      "truthy_skipped \<lparr>x = 1/5, y = 1/5, skipped = Some True\<rparr>"
      "truthy_skipped \<lparr>x = 3/10, y = 3/10, skipped = Some True\<rparr>"
      "\<And>a b. \<not> truthy_skipped (Point a b)"
    by (simp_all add: truthy_skipped_def Point_def)
  have f1: "fragments all_marked_stroke = []"
    using a t resegmentation_fragments [where st = all_marked_stroke and ps =
      "[\<lparr>x = 1/10, y = 1/10, skipped = Some True\<rparr>, \<lparr>x = 1/5, y = 1/5, skipped = Some True\<rparr>]"]
    by simp
  have f2: "fragments example_stroke = [example_stroke]"
    using b t resegmentation_fragments [where st = example_stroke and ps =
      "[Point (1/10) (1/10), Point (1/5) (1/5)]"]
    by simp
  have f3: "fragments five_stroke =
     [five_stroke\<lparr>points := Some [Point (1/10) (1/10), Point (2/10) (2/10)]\<rparr>,
      five_stroke\<lparr>points := Some [Point (4/10) (4/10), Point (5/10) (5/10)]\<rparr>]"
    using c t resegmentation_fragments [where st = five_stroke
      and ?p1.0 = "Point (1/10) (1/10)" and ?p2.0 = "Point (2/10) (2/10)"
      and ?p3.0 = "\<lparr>x = 3/10, y = 3/10, skipped = Some True\<rparr>"
      and ?p4.0 = "Point (4/10) (4/10)" and ?p5.0 = "Point (5/10) (5/10)"]
    by simp
  have f4: "strokes (createNewStrokesAfterErasing
       (example_pad\<lparr>strokes := [all_marked_stroke, example_stroke, five_stroke]\<rparr>)) =
      concat (map fragments [all_marked_stroke, example_stroke, five_stroke])"
    using resegmentation_fragments
      [where s = "example_pad\<lparr>strokes := [all_marked_stroke, example_stroke, five_stroke]\<rparr>"]
    by simp
  show ?thesis
    using a b c f1 f2 f3 f4 by simp
qed

subsection \<open>The radius of the eraser\<close>

lemma erasePoints_strokes_eq:
  "erasePoints_strokes A c ss =
     (if list_all (\<lambda>st. points st \<noteq> None) ss then Inr (map (mark_stroke A c) ss)
      else Inl TypeError)"
  by (induction ss) (auto simp: mark_stroke_def split: option.splits)

lemma erasePoints_Inr:
  "erasePoints c s = Inr s' \<Longrightarrow>
     s' = s\<lparr>strokes := map (mark_stroke ((eraserSize s / canvasWidth s / 2) * (eraserSize s / canvasWidth s / 2)) c) (strokes s)\<rparr>"
  by (auto simp: erasePoints_def Let_def erasePoints_strokes_eq getLineWidthRelativeToCanvas_def
      split: if_splits)

lemma erasePoint_zero:
  "erasePoint 0 c p = (if x p = x c \<and> y p = y c then p\<lparr>skipped := Some True\<rparr> else p)"
  by (simp add: erasePoint_def Let_def sum_squares_le_zero_iff)

lemma hypot_le_iff: "0 \<le> r \<Longrightarrow> hypot a b \<le> r \<longleftrightarrow> a * a + b * b \<le> r * r"
proof -
  assume r: "0 \<le> r"
  have "sqrt (a * a + b * b) \<le> r \<longleftrightarrow> sqrt (a * a + b * b) \<le> sqrt (r * r)"
    using r by simp
  also have "\<dots> \<longleftrightarrow> a * a + b * b \<le> r * r"
    by (rule real_sqrt_le_iff)
  finally show ?thesis by (simp add: hypot_def)
qed

lemma hypot_nonneg: "0 \<le> hypot a b"
  by (simp add: hypot_def)

lemma erasePoint_within:
  "hypot (x p - x c) (y p - y c) \<le> r \<Longrightarrow> erasePoint (r * r) c p = p\<lparr>skipped := Some True\<rparr>"
proof -
  assume h: "hypot (x p - x c) (y p - y c) \<le> r"
  have "0 \<le> r" using h hypot_nonneg [of "x p - x c" "y p - y c"] by linarith
  with h show ?thesis by (simp add: hypot_le_iff erasePoint_def Let_def)
qed

lemma erasePoint_truthy: "truthy_skipped (p\<lparr>skipped := Some True\<rparr>)"
  by (simp add: truthy_skipped_def)

lemma concat_fragments_remove:
  "i < length ss \<Longrightarrow> fragments (ss ! i) = [] \<Longrightarrow>
     concat (map fragments ss) =
       concat (map fragments (take i ss)) @ concat (map fragments (drop (Suc i) ss))"
proof -
  assume i: "i < length ss" and f: "fragments (ss ! i) = []"
  have "ss = take i ss @ ss ! i # drop (Suc i) ss"
    using i by (simp add: id_take_nth_drop)
  then have "concat (map fragments ss) =
      concat (map fragments (take i ss @ ss ! i # drop (Suc i) ss))" by simp
  then show ?thesis using f by simp
qed

lemma erasePoints_zero_pad:
  "erasePoints (Point (1/10) (1/10)) zero_pad = Inr (zero_pad\<lparr>strokes := [marked_stroke]\<rparr>)"
  by (simp add: erasePoints_def erasePoint_def getLineWidthRelativeToCanvas_def Let_def
      zero_pad_def example_pad_def example_stroke_def marked_stroke_def Point_def)

lemma erasePoints_wide_pad:
  "erasePoints (Point (1/10) (1/10)) wide_pad = Inr (wide_pad\<lparr>strokes := [all_marked_stroke]\<rparr>)"
  by (simp add: erasePoints_def erasePoint_def getLineWidthRelativeToCanvas_def Let_def
      wide_pad_def example_pad_def example_stroke_def all_marked_stroke_def
      Point_def)

text \<open>
  In exact arithmetic an erase pass of radius 0 marks the points at the centre and no
  other, and a pass whose radius is at least the distance from the centre to every point
  of a stroke marks every point of that stroke. The arithmetic of the program rounds, and
  there neither statement holds; the properties of the pass as the program runs it follow
  below.
\<close>

lemma erase_exact_arithmetic:
  assumes "canvasWidth s \<noteq> 0" and "erasePoints c s = Inr s'"
  shows "(eraserSize s / canvasWidth s / 2 = 0 \<longrightarrow>
            strokes s' = map (\<lambda>st. st\<lparr>points := map_option
               (map (\<lambda>p. if x p = x c \<and> y p = y c then p\<lparr>skipped := Some True\<rparr> else p))
               (points st)\<rparr>) (strokes s)) \<and>
         (i < length (strokes s) \<and> points (strokes s ! i) = Some ps \<and>
          (\<forall>p \<in> set ps. hypot (x p - x c) (y p - y c) \<le> eraserSize s / canvasWidth s / 2) \<longrightarrow>
            points (strokes s' ! i) = Some (map (\<lambda>p. p\<lparr>skipped := Some True\<rparr>) ps) \<and>
            fragments (strokes s' ! i) = [] \<and>
            strokes (createNewStrokesAfterErasing s') =
              concat (map fragments (take i (strokes s'))) @
              concat (map fragments (drop (Suc i) (strokes s'))))"
proof (intro conjI impI)
  define r where "r = eraserSize s / canvasWidth s / 2"
  have s': "strokes s' = map (mark_stroke (r * r) c) (strokes s)"
    using erasePoints_Inr [OF assms(2)] by (simp add: r_def)
  {
    assume "eraserSize s / canvasWidth s / 2 = 0"
    then have "r = 0" by (simp only: r_def)
    then have "strokes s' = map (mark_stroke 0 c) (strokes s)" using s' by simp
    then show "strokes s' = map (\<lambda>st. st\<lparr>points := map_option
               (map (\<lambda>p. if x p = x c \<and> y p = y c then p\<lparr>skipped := Some True\<rparr> else p))
               (points st)\<rparr>) (strokes s)"
      by (simp add: mark_stroke_def erasePoint_zero [abs_def])
  }
  {
    assume "i < length (strokes s) \<and> points (strokes s ! i) = Some ps \<and>
          (\<forall>p \<in> set ps. hypot (x p - x c) (y p - y c) \<le> eraserSize s / canvasWidth s / 2)"
    then have a: "i < length (strokes s)" "points (strokes s ! i) = Some ps"
      "\<forall>p \<in> set ps. hypot (x p - x c) (y p - y c) \<le> r"
      unfolding r_def by blast+
    then have m: "map (erasePoint (r * r) c) ps = map (\<lambda>p. p\<lparr>skipped := Some True\<rparr>) ps"
      by (simp add: erasePoint_within)
    from a s' have "points (strokes s' ! i) = Some (map (erasePoint (r * r) c) ps)"
      by (simp add: mark_stroke_def)
    with m show p: "points (strokes s' ! i) = Some (map (\<lambda>p. p\<lparr>skipped := Some True\<rparr>) ps)"
      by simp
    have "list_all truthy_skipped (map (\<lambda>p. p\<lparr>skipped := Some True\<rparr>) ps)"
      by (simp add: list_all_iff erasePoint_truthy)
    with p show f: "fragments (strokes s' ! i) = []"
      by (simp add: fragments_def all_skipped_no_fragment)
    from a s' have "i < length (strokes s')" by simp
    with f show "strokes (createNewStrokesAfterErasing s') =
              concat (map fragments (take i (strokes s'))) @
              concat (map fragments (drop (Suc i) (strokes s')))"
      by (simp add: createNewStrokesAfterErasing_fragments concat_fragments_remove)
  }
qed

lemma erase_exact_arithmetic_example:
  "canvasWidth zero_pad \<noteq> 0 \<and> eraserSize zero_pad / canvasWidth zero_pad / 2 = 0 \<and>
   erasePoints (Point (1/10) (1/10)) zero_pad = Inr (zero_pad\<lparr>strokes := [marked_stroke]\<rparr>) \<and>
   [marked_stroke] = map (\<lambda>st. st\<lparr>points := map_option
       (map (\<lambda>p. if x p = 1/10 \<and> y p = 1/10 then p\<lparr>skipped := Some True\<rparr> else p))
       (points st)\<rparr>) [example_stroke] \<and>
   canvasWidth wide_pad \<noteq> 0 \<and> eraserSize wide_pad / canvasWidth wide_pad / 2 = 1/5 \<and>
   hypot (1/10 - 1/10) (1/10 - 1/10) \<le> 1/5 \<and> hypot (1/5 - 1/10) (1/5 - 1/10) \<le> 1/5 \<and>
   erasePoints (Point (1/10) (1/10)) wide_pad = Inr (wide_pad\<lparr>strokes := [all_marked_stroke]\<rparr>) \<and>
   fragments all_marked_stroke = [] \<and>
   strokes (createNewStrokesAfterErasing (wide_pad\<lparr>strokes := [all_marked_stroke]\<rparr>)) = []"
proof -
  have z: "canvasWidth zero_pad \<noteq> 0" "eraserSize zero_pad / canvasWidth zero_pad / 2 = 0"
    "strokes zero_pad = [example_stroke]"
    by (simp_all add: zero_pad_def example_pad_def)
  have w: "canvasWidth wide_pad \<noteq> 0" "eraserSize wide_pad / canvasWidth wide_pad / 2 = 1/5"
    "strokes wide_pad = [example_stroke]"
    "points example_stroke = Some [Point (1/10) (1/10), Point (1/5) (1/5)]"
    by (simp_all add: wide_pad_def example_pad_def example_stroke_def)
  have h: "hypot (1/10 - 1/10) (1/10 - 1/10) \<le> 1/5" "hypot (1/5 - 1/10) (1/5 - 1/10) \<le> 1/5"
    using hypot_le_iff [of "1/5" "1/10 - 1/10" "1/10 - 1/10"]
      hypot_le_iff [of "1/5" "1/5 - 1/10" "1/5 - 1/10"]
    by simp_all
  have c: "x (Point (1/10) (1/10)) = 1/10" "y (Point (1/10) (1/10)) = 1/10"
    by (simp_all add: Point_def)
  have 1: "[marked_stroke] = map (\<lambda>st. st\<lparr>points := map_option
       (map (\<lambda>p. if x p = 1/10 \<and> y p = 1/10 then p\<lparr>skipped := Some True\<rparr> else p))
       (points st)\<rparr>) [example_stroke]"
    using erase_exact_arithmetic [OF z(1) erasePoints_zero_pad] z c by simp
  have 2: "fragments all_marked_stroke = [] \<and>
      strokes (createNewStrokesAfterErasing (wide_pad\<lparr>strokes := [all_marked_stroke]\<rparr>)) = []"
    using erase_exact_arithmetic [OF w(1) erasePoints_wide_pad, where i = 0
        and ps = "[Point (1/10) (1/10), Point (1/5) (1/5)]"] w h
    by (simp add: Point_def)
  show ?thesis
    using z w h 1 2 erasePoints_zero_pad erasePoints_wide_pad by simp
qed

subsection \<open>Evaluating the rounding\<close>

lemma round_half_even_int: "round_half_even (of_int n) = n"
  by (simp add: round_half_even_def)
































subsection \<open>The erase pass in the arithmetic of the program\<close>

lemma erasePoint_rounded_id: "erasePoint_rounded (\<lambda>r. r) A c p = erasePoint A c p"
  by (simp add: erasePoint_rounded_def erasePoint_def)

lemma erasePoints_strokes_rounded_id:
  "erasePoints_strokes_rounded (\<lambda>r. r) A c ss = erasePoints_strokes A c ss"
  by (induction ss) (auto simp: erasePoint_rounded_id split: option.splits sum.splits)

lemma erasePoints_rounded_id: "erasePoints_rounded (\<lambda>r. r) c s = erasePoints c s"
  by (simp add: erasePoints_rounded_def erasePoints_def erasePoints_strokes_rounded_id
      getLineWidthRelativeToCanvas_def)















subsection \<open>Marking and re-segmentation in the pointer handlers\<close>








lemma getCursorRelativeToCanvas_sketching:
  "getCursorRelativeToCanvas (s\<lparr>sketching := b\<rparr>) e = getCursorRelativeToCanvas s e"
  by (simp add: getCursorRelativeToCanvas_def)







section \<open>Properties of the curve interpolator\<close>

text \<open>
  The loop of \<open>interpolateQuadraticCurve\<close>, started at the counter \<open>i\<close>, appends the
  samples for \<open>i\<close>, ..., \<open>n - 1\<close> in this order.
\<close>

lemma interpolateQuadraticCurve_loop_samples:
  "interpolateQuadraticCurve_loop p c d n (int i) acc =
     acc @ map (\<lambda>j. bezier p c d (real j / real_of_int n)) [i..<nat n]"
proof (induction "nat n - i" arbitrary: i acc)
  case 0
  then have "\<not> int i < n" by linarith
  moreover from 0 have "[i..<nat n] = []" by simp
  ultimately show ?case by (subst interpolateQuadraticCurve_loop.simps) simp
next
  case (Suc m)
  then have lt: "int i < n" and i: "i < nat n" by linarith+
  from Suc have m: "m = nat n - Suc i" by linarith
  have "interpolateQuadraticCurve_loop p c d n (int i) acc =
      interpolateQuadraticCurve_loop p c d n (int i + 1)
        (acc @ [bezier p c d (real i / real_of_int n)])"
    using lt by (subst interpolateQuadraticCurve_loop.simps) (simp add: bezier_def Let_def)
  also have "\<dots> = interpolateQuadraticCurve_loop p c d n (int (Suc i))
        (acc @ [bezier p c d (real i / real_of_int n)])"
    by (simp add: add.commute)
  also have "\<dots> = (acc @ [bezier p c d (real i / real_of_int n)]) @
      map (\<lambda>j. bezier p c d (real j / real_of_int n)) [Suc i..<nat n]"
    by (rule Suc.hyps(1) [OF m])
  also have "\<dots> = acc @ map (\<lambda>j. bezier p c d (real j / real_of_int n)) [i..<nat n]"
    using i by (simp add: upt_conv_Cons)
  finally show ?case .
qed

lemma interpolateQuadraticCurve_samples:
  "interpolateQuadraticCurve p c d n = spec_samples p c d (nat n)"
proof (cases "0 \<le> n")
  case True
  then show ?thesis
    using interpolateQuadraticCurve_loop_samples [of p c d n 0 "[]"]
    by (simp add: interpolateQuadraticCurve_def spec_samples_def)
next
  case False
  then show ?thesis
    using interpolateQuadraticCurve_loop_samples [of p c d n 0 "[]"]
    by (simp add: interpolateQuadraticCurve_def spec_samples_def)
qed

lemma interpolate_arc_samples:
  "interpolate_arc s k p c d = spec_arc_samples s k (p, c, d)"
  by (simp add: interpolate_arc_def spec_arc_samples_def Let_def interpolateQuadraticCurve_samples
      spec_sample_count_def to_normalized_def [abs_def])

lemma length_interpolate_arc:
  "length (interpolate_arc s k p c d) = spec_sample_count (hypot (x d - x p) (y d - y p)) k"
  by (simp add: interpolate_arc_samples spec_arc_samples_def spec_samples_def)

lemma interpolate_loop_arcs:
  "interpolate_loop s k d ps acc = acc @ concat (map (spec_arc_samples s k) (arcs_from d ps))"
  by (induction s k d ps acc rule: interpolate_loop.induct)
     (simp_all add: Let_def interpolate_arc_samples)

text \<open>
  The arcs the \<open>for\<close> loop walks through, by their index.
\<close>

lemma arcs_from_index:
  "arcs_from d ps =
     map (\<lambda>j. (if j = 0 then d else midPoint (ps ! (j - 1)) (ps ! j),
                ps ! j,
                midPoint (ps ! j) (ps ! (j + 1))))
       [0..<length ps - 1]"
proof (induction d ps rule: arcs_from.induct)
  case (1 d pj pj1 rest)
  show ?case
    unfolding arcs_from.simps "1.IH"
    by (auto simp: map_upt_Suc nth_Cons' simp del: upt_Suc)
qed simp_all

lemma spec_arcs_arcs_from: "spec_arcs (p # ps) = arcs_from p (p # ps)"
  by (simp add: spec_arcs_def arcs_from_index)

text \<open>
  The interpolator computes the spec's interpolation of the stroke's points, and fails
  only on a stroke without a point.
\<close>

lemma interpolateExistingShapePaths_spec:
  "points st = Some (p # ps) \<Longrightarrow>
     interpolateExistingShapePaths s st k =
       Inr (st\<lparr>isInterpolationDone := Some True,
               points := Some (spec_interpolation s k p ps)\<rparr>)"
proof (cases ps)
  case Nil
  assume "points st = Some (p # ps)"
  with Nil show ?thesis
    by (simp add: interpolateExistingShapePaths_def Let_def spec_interpolation_def
        spec_arcs_def to_pixel_def to_pixel_def [abs_def])
next
  case (Cons q r)
  assume "points st = Some (p # ps)"
  with Cons show ?thesis
    by (simp add: interpolateExistingShapePaths_def Let_def spec_interpolation_def
        spec_arcs_arcs_from interpolate_loop_arcs interpolate_arc_samples
        to_pixel_def to_pixel_def [abs_def])
qed

lemma hypot_3_4: "hypot 3 4 = 5"
proof -
  have "sqrt (5 * 5) = \<bar>5::real\<bar>" by (rule real_sqrt_abs2)
  then show ?thesis by (simp add: hypot_def)
qed

lemma spec_sample_count_5_2: "spec_sample_count 5 2 = 3"
  by (simp add: spec_sample_count_def)

lemma upt_3: "[0..<3] = [0, 1, 2]"
  by (simp add: upt_rec)

lemma spec_interpolation_raw:
  "spec_interpolation example_pad 2 (Point 0 0) [Point (3/50) (2/25)] = smooth_points"
  by (simp add: spec_interpolation_def spec_arcs_def spec_arc_samples_def to_pixel_def
      midPoint_def Point_def hypot_3_4 spec_sample_count_5_2 spec_samples_def upt_3
      bezier_def to_normalized_def example_pad_def smooth_points_def power2_eq_square)

lemma spec_interpolation_canvas:
  "canvasWidth s' = canvasWidth s \<Longrightarrow> canvasHeight s' = canvasHeight s \<Longrightarrow>
     spec_interpolation s' k p ps = spec_interpolation s k p ps"
  by (simp add: spec_interpolation_def spec_arc_samples_def [abs_def] to_pixel_def [abs_def]
      to_normalized_def [abs_def])

lemma endStrokeHandler_draw:
  assumes "sketching s" and "\<not> isTouchEvent e" and "\<not> isEraserActive s"
    and "strokes s \<noteq> []" and "points (last (strokes s)) = Some (p # ps)"
  shows "endStrokeHandler e s =
     Inr (createNewStrokesAfterErasing
       (s\<lparr>sketching := False,
          strokes := butlast (strokes s) @
            [(last (strokes s))\<lparr>isInterpolationDone := Some True,
               points := Some (spec_interpolation s 2 p
                 (ps @ [getCursorRelativeToCanvas s e]))\<rparr>]\<rparr>))"
proof -
  let ?c = "getCursorRelativeToCanvas s e"
  let ?s1 = "s\<lparr>sketching := False\<rparr>"
  let ?st = "(last (strokes s))\<lparr>points := Some ((p # ps) @ [?c])\<rparr>"
  let ?s2 = "?s1\<lparr>strokes := butlast (strokes s) @ [?st]\<rparr>"
  have pp: "pushPoint ?c ?s1 = Inr ?s2"
    using assms by (simp add: pushPoint_def Let_def)
  have i: "interpolateExistingShapePaths (?s2\<lparr>strokes := butlast (strokes ?s2)\<rparr>) ?st 2 =
      Inr (?st\<lparr>isInterpolationDone := Some True,
             points := Some (spec_interpolation s 2 p (ps @ [?c]))\<rparr>)"
    using interpolateExistingShapePaths_spec
      [of ?st p "ps @ [?c]" "?s2\<lparr>strokes := butlast (strokes ?s2)\<rparr>" 2]
      spec_interpolation_canvas [of "?s2\<lparr>strokes := butlast (strokes ?s2)\<rparr>" s 2 p "ps @ [?c]"]
    by simp
  have "createNewStrokesAfterInterpolation (last (strokes ?s2)) 2 ?s2 =
      Inr (?s1\<lparr>strokes := butlast (strokes s) @
        [(last (strokes s))\<lparr>isInterpolationDone := Some True,
           points := Some (spec_interpolation s 2 p (ps @ [?c]))\<rparr>]\<rparr>)"
    unfolding createNewStrokesAfterInterpolation_def Let_def
    using i by simp
  then show ?thesis
    using assms pp
    by (simp add: endStrokeHandler_def Let_def getCursorRelativeToCanvas_sketching)
qed

text \<open>
  C5. \<open>interpolateQuadraticCurve\<close> returns the \<open>n\<close> samples of \<open>B(t)\<close> at
  \<open>t = i/n\<close> for \<open>i = 0, ..., n - 1\<close>, in this order. For one arc the interpolator pushes
  these samples, converted to normalised coordinates, with \<open>n = max(1, ceil(L/k))\<close> for
  the chord \<open>L\<close> of the arc in pixels; so an arc contributes exactly that many points.
  The output stroke is the first point followed by the samples of the arcs in order,
  the arcs being those of \<open>spec_arcs\<close>: arc \<open>j\<close> has the raw point \<open>j\<close> as control
  point, ends at the midpoint of the raw points \<open>j\<close> and \<open>j + 1\<close>, and starts where
  arc \<open>j - 1\<close> ends (the first arc starts at the first raw point). At the pointer-up of
  a mouse in draw mode the last stroke, with the pointer's position appended, is replaced
  by this interpolation at the interval 2.
\<close>

theorem interpolation_samples:
  "interpolateQuadraticCurve originPt controlPt destinationPt n =
     map (\<lambda>i. bezier originPt controlPt destinationPt (real i / real (nat n))) [0..<nat n] \<and>
   interpolate_arc s k originPt controlPt destinationPt =
     spec_arc_samples s k (originPt, controlPt, destinationPt) \<and>
   length (interpolate_arc s k originPt controlPt destinationPt) =
     nat (max 1 \<lceil>hypot (x destinationPt - x originPt) (y destinationPt - y originPt) / k\<rceil>) \<and>
   interpolateExistingShapePaths s (st\<lparr>points := Some (p # ps)\<rparr>) k =
     Inr (st\<lparr>isInterpolationDone := Some True,
             points := Some (spec_interpolation s k p ps)\<rparr>) \<and>
   (sketching s \<and> \<not> isTouchEvent e \<and> \<not> isEraserActive s \<and> strokes s \<noteq> [] \<and>
    points (last (strokes s)) = Some (p # ps) \<longrightarrow>
      endStrokeHandler e s =
        Inr (createNewStrokesAfterErasing
          (s\<lparr>sketching := False,
             strokes := butlast (strokes s) @
               [(last (strokes s))\<lparr>isInterpolationDone := Some True,
                  points := Some (spec_interpolation s 2 p
                    (ps @ [getCursorRelativeToCanvas s e]))\<rparr>]\<rparr>)))"
proof (intro conjI impI)
  show "interpolateQuadraticCurve originPt controlPt destinationPt n =
     map (\<lambda>i. bezier originPt controlPt destinationPt (real i / real (nat n))) [0..<nat n]"
    by (simp only: interpolateQuadraticCurve_samples spec_samples_def)
  show "interpolate_arc s k originPt controlPt destinationPt =
     spec_arc_samples s k (originPt, controlPt, destinationPt)"
    by (rule interpolate_arc_samples)
  show "length (interpolate_arc s k originPt controlPt destinationPt) =
     nat (max 1 \<lceil>hypot (x destinationPt - x originPt) (y destinationPt - y originPt) / k\<rceil>)"
    by (simp only: length_interpolate_arc spec_sample_count_def)
  show "interpolateExistingShapePaths s (st\<lparr>points := Some (p # ps)\<rparr>) k =
     Inr (st\<lparr>isInterpolationDone := Some True,
             points := Some (spec_interpolation s k p ps)\<rparr>)"
    using interpolateExistingShapePaths_spec [of "st\<lparr>points := Some (p # ps)\<rparr>" p ps s k]
    by simp
next
  assume "sketching s \<and> \<not> isTouchEvent e \<and> \<not> isEraserActive s \<and> strokes s \<noteq> [] \<and>
    points (last (strokes s)) = Some (p # ps)"
  then show "endStrokeHandler e s =
        Inr (createNewStrokesAfterErasing
          (s\<lparr>sketching := False,
             strokes := butlast (strokes s) @
               [(last (strokes s))\<lparr>isInterpolationDone := Some True,
                  points := Some (spec_interpolation s 2 p
                    (ps @ [getCursorRelativeToCanvas s e]))\<rparr>]\<rparr>))"
    by (simp add: endStrokeHandler_draw)
qed

lemma interpolate_raw_stroke:
  "interpolateExistingShapePaths example_pad raw_stroke 2 =
     Inr (raw_stroke\<lparr>isInterpolationDone := Some True, points := Some smooth_points\<rparr>)"
  using interpolateExistingShapePaths_spec
    [of raw_stroke "Point 0 0" "[Point (3/50) (2/25)]" example_pad 2]
  by (simp add: spec_interpolation_raw) (simp add: raw_stroke_def)

theorem interpolation_samples_witness:
  "interpolateQuadraticCurve (Point 0 0) (Point 0 0) (Point 3 4) 3 =
     [\<lparr>x = 0, y = 0, skipped = None\<rparr>, \<lparr>x = 1/3, y = 4/9, skipped = None\<rparr>,
      \<lparr>x = 4/3, y = 16/9, skipped = None\<rparr>] \<and>
   length (interpolate_arc example_pad 2 (Point 0 0) (Point 0 0) (Point 3 4)) = 3 \<and>
   interpolateExistingShapePaths example_pad raw_stroke 2 =
     Inr (raw_stroke\<lparr>isInterpolationDone := Some True, points := Some smooth_points\<rparr>) \<and>
   sketching drawing_pad \<and> \<not> isTouchEvent (mouse_at 6 8) \<and> \<not> isEraserActive drawing_pad \<and>
   strokes drawing_pad \<noteq> [] \<and> points (last (strokes drawing_pad)) = Some [Point 0 0] \<and>
   endStrokeHandler (mouse_at 6 8) drawing_pad =
     Inr (drawing_pad\<lparr>sketching := False,
            strokes := [example_stroke\<lparr>points := Some smooth_points\<rparr>]\<rparr>)"
proof -
  have h: "sketching drawing_pad" "\<not> isTouchEvent (mouse_at 6 8)" "\<not> isEraserActive drawing_pad"
    "strokes drawing_pad \<noteq> []" "points (last (strokes drawing_pad)) = Some [Point 0 0]"
    "getCursorRelativeToCanvas drawing_pad (mouse_at 6 8) = Point (3/50) (2/25)"
    by (simp_all add: drawing_pad_def example_pad_def mouse_at_def getCursorRelativeToCanvas_def
        Point_def)
  have r: "raw_stroke\<lparr>points := Some [Point 0 0, Point (3/50) (2/25)]\<rparr> = raw_stroke"
    by (simp add: raw_stroke_def)
  have sp: "spec_interpolation drawing_pad 2 (Point 0 0) [Point (3/50) (2/25)] = smooth_points"
    using spec_interpolation_canvas [of drawing_pad example_pad] spec_interpolation_raw
    by (simp add: drawing_pad_def)
  have 1: "interpolateQuadraticCurve (Point 0 0) (Point 0 0) (Point 3 4) 3 =
     [\<lparr>x = 0, y = 0, skipped = None\<rparr>, \<lparr>x = 1/3, y = 4/9, skipped = None\<rparr>,
      \<lparr>x = 4/3, y = 16/9, skipped = None\<rparr>]"
    using interpolation_samples [where originPt = "Point 0 0" and controlPt = "Point 0 0"
        and destinationPt = "Point 3 4" and n = 3, THEN conjunct1]
    by (simp add: upt_3 bezier_def Point_def power2_eq_square)
  have 2: "length (interpolate_arc example_pad 2 (Point 0 0) (Point 0 0) (Point 3 4)) = 3"
    using interpolation_samples [where originPt = "Point 0 0" and controlPt = "Point 0 0"
        and destinationPt = "Point 3 4" and s = example_pad and k = 2,
        THEN conjunct2, THEN conjunct2, THEN conjunct1]
    by (simp add: Point_def hypot_3_4)
  have 3: "interpolateExistingShapePaths example_pad raw_stroke 2 =
     Inr (raw_stroke\<lparr>isInterpolationDone := Some True, points := Some smooth_points\<rparr>)"
    using interpolation_samples [where s = example_pad and st = raw_stroke and k = 2
        and p = "Point 0 0" and ps = "[Point (3/50) (2/25)]",
        THEN conjunct2, THEN conjunct2, THEN conjunct2, THEN conjunct1]
    by (simp add: r spec_interpolation_raw)
  have 4: "endStrokeHandler (mouse_at 6 8) drawing_pad =
     Inr (drawing_pad\<lparr>sketching := False,
            strokes := [example_stroke\<lparr>points := Some smooth_points\<rparr>]\<rparr>)"
    using interpolation_samples [where s = drawing_pad and e = "mouse_at 6 8"
        and p = "Point 0 0" and ps = "[]",
        THEN conjunct2, THEN conjunct2, THEN conjunct2, THEN conjunct2] h
    by (simp add: sp)
       (simp add: drawing_pad_def createNewStrokesAfterErasing_def deepClone_def Let_def
          example_stroke_def smooth_points_def truthy_skipped_def)
  show ?thesis using h 1 2 3 4 by simp
qed

lemma spec_arc_samples_skipped:
  "q \<in> set (spec_arc_samples s k arc) \<Longrightarrow> skipped q = Some False"
  by (auto simp: spec_arc_samples_def to_normalized_def split: prod.splits)

lemma spec_arc_samples_nonempty: "spec_arc_samples s k arc \<noteq> []"
  by (simp add: spec_arc_samples_def spec_samples_def spec_sample_count_def split: prod.splits)

text \<open>
  C6. On a canvas of non-zero width and height, the interpolation of a stroke with at
  least one point succeeds and its first point has the coordinates of the first raw
  point; the interpolation of a stroke with exactly one point has that point only.
\<close>

theorem interpolation_first_point:
  assumes "canvasWidth s \<noteq> 0" and "canvasHeight s \<noteq> 0" and "points st = Some (p # ps)"
  shows "\<exists>st' rest. interpolateExistingShapePaths s st k = Inr st' \<and>
           points st' = Some (\<lparr>x = x p, y = y p, skipped = None\<rparr> # rest) \<and>
           (ps = [] \<longrightarrow> rest = [])"
proof -
  let ?rest = "concat (map (spec_arc_samples s k) (spec_arcs (map (to_pixel s) (p # ps))))"
  have "spec_interpolation s k p ps = \<lparr>x = x p, y = y p, skipped = None\<rparr> # ?rest"
    using assms(1,2) by (simp add: spec_interpolation_def to_pixel_def)
  moreover have "ps = [] \<longrightarrow> ?rest = []"
    by (simp add: spec_arcs_def)
  ultimately show ?thesis
    using interpolateExistingShapePaths_spec [OF assms(3), of s k] by simp
qed

theorem interpolation_first_point_witness:
  "canvasWidth example_pad \<noteq> 0 \<and> canvasHeight example_pad \<noteq> 0 \<and>
   points dot_stroke = Some [Point (3/10) (7/10)] \<and>
   (case interpolateExistingShapePaths example_pad dot_stroke 2 of
      Inl er \<Rightarrow> False
    | Inr st' \<Rightarrow> points st' = Some [\<lparr>x = 3/10, y = 7/10, skipped = None\<rparr>]) \<and>
   points raw_stroke = Some [Point 0 0, Point (3/50) (2/25)] \<and>
   (case interpolateExistingShapePaths example_pad raw_stroke 2 of
      Inl er \<Rightarrow> False
    | Inr st' \<Rightarrow> map_option hd (points st') = Some \<lparr>x = 0, y = 0, skipped = None\<rparr>)"
proof -
  have h: "canvasWidth example_pad \<noteq> 0" "canvasHeight example_pad \<noteq> 0"
    by (simp_all add: example_pad_def)
  have d: "points dot_stroke = Some [Point (3/10) (7/10)]"
    by (simp add: dot_stroke_def)
  have r: "points raw_stroke = Some [Point 0 0, Point (3/50) (2/25)]"
    by (simp add: raw_stroke_def)
  show ?thesis
    using h d r interpolation_first_point [OF h d, of 2] interpolation_first_point [OF h r, of 2]
    by (auto simp: Point_def)
qed

text \<open>
  C10. In the interpolation of a stroke with at least two points the first point has no
  \<open>skipped\<close> field, it is followed by at least one more point, and every point after
  the first has \<open>skipped = false\<close>.
\<close>

theorem interpolation_skipped_flags:
  assumes "points st = Some (p0 # p1 # ps)"
  shows "\<exists>st' q qs. interpolateExistingShapePaths s st k = Inr st' \<and>
           points st' = Some (q # qs) \<and> skipped q = None \<and> qs \<noteq> [] \<and>
           list_all (\<lambda>p. skipped p = Some False) qs"
proof -
  let ?qs = "concat (map (spec_arc_samples s k) (spec_arcs (map (to_pixel s) (p0 # p1 # ps))))"
  have "spec_arcs (map (to_pixel s) (p0 # p1 # ps)) \<noteq> []"
    by (simp add: spec_arcs_arcs_from)
  then have ne: "?qs \<noteq> []"
    by (cases "spec_arcs (map (to_pixel s) (p0 # p1 # ps))")
       (simp_all add: spec_arc_samples_nonempty)
  have al: "list_all (\<lambda>p. skipped p = Some False) ?qs"
    by (auto simp: list_all_iff spec_arc_samples_skipped)
  show ?thesis
    using interpolateExistingShapePaths_spec [OF assms, of s k] ne al
    by (simp add: spec_interpolation_def)
qed

theorem interpolation_skipped_flags_witness:
  "points raw_stroke = Some [Point 0 0, Point (3/50) (2/25)] \<and>
   (case interpolateExistingShapePaths example_pad raw_stroke 2 of
      Inl er \<Rightarrow> False
    | Inr st' \<Rightarrow>
        (case points st' of
           Some (q # qs) \<Rightarrow> skipped q = None \<and> qs \<noteq> [] \<and>
             list_all (\<lambda>p. skipped p = Some False) qs
         | _ \<Rightarrow> False)) \<and>
   interpolateExistingShapePaths example_pad raw_stroke 2 =
     Inr (raw_stroke\<lparr>isInterpolationDone := Some True, points := Some smooth_points\<rparr>) \<and>
   map skipped smooth_points = [None, Some False, Some False, Some False]"
proof -
  have r: "points raw_stroke = Some [Point 0 0, Point (3/50) (2/25)]"
    by (simp add: raw_stroke_def)
  show ?thesis
    using r interpolation_skipped_flags [OF r, of example_pad 2] interpolate_raw_stroke
    by (auto simp: smooth_points_def)
qed

end
